theory Spec2Isabelle
  imports Complex_Main
begin

section \<open>The JavaScript primitives the filter engine calls\<close>

text \<open>
  The filter engine of the records screen (\<^verbatim>\<open>records.jsx\<close>) and the query
  encoder of the service module call a handful of JavaScript built-ins:
  \<^verbatim>\<open>parseFloat\<close>, \<^verbatim>\<open>isNaN\<close>, \<^verbatim>\<open>isFinite\<close>, \<^verbatim>\<open>toLowerCase\<close>,
  \<^verbatim>\<open>trim\<close>, \<^verbatim>\<open>includes\<close>, \<^verbatim>\<open>startsWith\<close> and
  \<^verbatim>\<open>encodeURIComponent\<close>. They are modelled here after ECMAScript.
  Strings are ASCII text (\<open>char list\<close>); \<^verbatim>\<open>toLowerCase\<close> and the white space
  of \<^verbatim>\<open>trim\<close> are the ASCII ones.
\<close>

subsection \<open>Numbers\<close>

text \<open>
  A JavaScript Number is a binary64 value: NaN, the two infinities, or a finite double,
  kept as the rational it denotes. The two zeros are one value: the engine only compares
  numbers, and \<^verbatim>\<open>-0 === 0\<close>.
\<close>

datatype js_number = NaN | Finite rat | PosInf | NegInf

definition pow2 :: "int \<Rightarrow> rat" where
  "pow2 e = (if 0 \<le> e then 2 ^ nat e else 1 / 2 ^ nat (- e))"

function bit_length :: "int \<Rightarrow> int" where
  "bit_length n = (if n \<le> 0 then 0 else 1 + bit_length (n div 2))"
  by pat_completeness auto
termination
  by (relation "measure nat") auto

declare bit_length.simps [simp del]

text \<open>\<open>floor_log2 a b\<close> is the \<open>e\<close> with \<open>2^e \<le> a / b < 2^(e+1)\<close>, for positive
  \<open>a\<close> and \<open>b\<close>.\<close>

definition floor_log2 :: "int \<Rightarrow> int \<Rightarrow> int" where
  "floor_log2 a b =
     (let e0 = bit_length a - bit_length b
      in if pow2 e0 * of_int b \<le> of_int a then e0 else e0 - 1)"

text \<open>The integer nearest to \<open>n / d\<close> (\<open>d > 0\<close>), the even one of the two when
  \<open>n / d\<close> is half-way between them.\<close>

definition round_half_even :: "int \<Rightarrow> int \<Rightarrow> int" where
  "round_half_even n d =
     (if 2 * (n mod d) < d then n div d
      else if d < 2 * (n mod d) then n div d + 1
      else if even (n div d) then n div d else n div d + 1)"

text \<open>
  Rounding the mathematical value \<open>a / b\<close> (\<open>a \<ge> 0\<close>, \<open>b > 0\<close>) to binary64,
  round-to-nearest, ties to even:
  53 significant bits, exponents from -1022 (below that the spacing stays \<open>2^-1074\<close>),
  and overflow to infinity from \<open>2^1024\<close>.
\<close>

definition round_double :: "int \<Rightarrow> int \<Rightarrow> js_number" where
  "round_double a b =
     (if a = 0 then Finite 0
      else let e = max (floor_log2 a b) (- 1022);
               m = (if 52 \<le> e then round_half_even a (b * 2 ^ nat (e - 52))
                    else round_half_even (a * 2 ^ nat (52 - e)) b);
               v = of_int m * pow2 (e - 52)
           in if pow2 1024 \<le> v then PosInf else Finite v)"

fun negate :: "js_number \<Rightarrow> js_number" where
  "negate NaN = NaN"
| "negate (Finite q) = Finite (- q)"
| "negate PosInf = NegInf"
| "negate NegInf = PosInf"

definition isNaN :: "js_number \<Rightarrow> bool" where
  "isNaN n = (n = NaN)"

definition number_isFinite :: "js_number \<Rightarrow> bool" where
  "number_isFinite n = (case n of Finite _ \<Rightarrow> True | _ \<Rightarrow> False)"

text \<open>\<^verbatim>\<open>a === b\<close>, \<^verbatim>\<open>a < b\<close>, \<^verbatim>\<open>a > b\<close>, \<^verbatim>\<open>a <= b\<close>, \<^verbatim>\<open>a >= b\<close> on numbers:
  every comparison with NaN is false.\<close>

definition strict_equals :: "js_number \<Rightarrow> js_number \<Rightarrow> bool" where
  "strict_equals a b = (a \<noteq> NaN \<and> a = b)"

fun less_than :: "js_number \<Rightarrow> js_number \<Rightarrow> bool" where
  "less_than NaN _ = False"
| "less_than _ NaN = False"
| "less_than (Finite a) (Finite b) = (a < b)"
| "less_than _ NegInf = False"
| "less_than NegInf _ = True"
| "less_than PosInf _ = False"
| "less_than _ PosInf = True"

definition greater_than :: "js_number \<Rightarrow> js_number \<Rightarrow> bool" where
  "greater_than a b = less_than b a"

definition less_or_equal :: "js_number \<Rightarrow> js_number \<Rightarrow> bool" where
  "less_or_equal a b = (less_than a b \<or> strict_equals a b)"

definition greater_or_equal :: "js_number \<Rightarrow> js_number \<Rightarrow> bool" where
  "greater_or_equal a b = (less_than b a \<or> strict_equals a b)"

subsection \<open>Strings\<close>

definition code_of :: "char \<Rightarrow> int" where
  "code_of c = of_char c"

definition is_white_space :: "char \<Rightarrow> bool" where
  "is_white_space c = (code_of c = 32 \<or> (9 \<le> code_of c \<and> code_of c \<le> 13))"

definition trimStart :: "string \<Rightarrow> string" where
  "trimStart s = dropWhile is_white_space s"

definition trim :: "string \<Rightarrow> string" where
  "trim s = rev (dropWhile is_white_space (rev (dropWhile is_white_space s)))"

definition lower_char :: "char \<Rightarrow> char" where
  "lower_char c = (if 65 \<le> code_of c \<and> code_of c \<le> 90 then char_of (code_of c + 32) else c)"

definition toLowerCase :: "string \<Rightarrow> string" where
  "toLowerCase s = map lower_char s"

fun startsWith :: "string \<Rightarrow> string \<Rightarrow> bool" where
  "startsWith s [] = True"
| "startsWith [] (d # t) = False"
| "startsWith (c # s) (d # t) = (c = d \<and> startsWith s t)"

fun includes_str :: "string \<Rightarrow> string \<Rightarrow> bool" where
  "includes_str [] t = (t = [])"
| "includes_str (c # s) t = (startsWith (c # s) t \<or> includes_str s t)"

text \<open>
  \<^verbatim>\<open>encodeURIComponent\<close> keeps letters, digits and \<^verbatim>\<open>- _ . ! ~ * ' ( )\<close>, and
  writes every other character as \<^verbatim>\<open>%XX\<close> with upper-case hexadecimal digits.
\<close>

definition is_digit :: "char \<Rightarrow> bool" where
  "is_digit c = (48 \<le> code_of c \<and> code_of c \<le> 57)"

definition is_alpha :: "char \<Rightarrow> bool" where
  "is_alpha c = ((65 \<le> code_of c \<and> code_of c \<le> 90) \<or> (97 \<le> code_of c \<and> code_of c \<le> 122))"

definition uri_unreserved :: "char \<Rightarrow> bool" where
  "uri_unreserved c = (is_alpha c \<or> is_digit c \<or> c \<in> set (CHR 0x27 # ''-_.!~*()''))"

definition hex_digit :: "int \<Rightarrow> char" where
  "hex_digit n = (if n < 10 then char_of (48 + n) else char_of (55 + n))"

definition percent_encode :: "char \<Rightarrow> string" where
  "percent_encode c = [CHR ''%'', hex_digit (code_of c div 16), hex_digit (code_of c mod 16)]"

definition encodeURIComponent :: "string \<Rightarrow> string" where
  "encodeURIComponent s = concat (map (\<lambda>c. if uri_unreserved c then [c] else percent_encode c) s)"

subsection \<open>Reading a number from a string\<close>

definition digit_value :: "char \<Rightarrow> int" where
  "digit_value c = code_of c - 48"

definition digits_value :: "string \<Rightarrow> int" where
  "digits_value ds = foldl (\<lambda>a c. 10 * a + digit_value c) 0 ds"

text \<open>
  \<open>ExponentPart\<close>: \<^verbatim>\<open>e\<close> or \<^verbatim>\<open>E\<close>, an optional sign and at least one digit.
  Where there is none the exponent is 0 and nothing is consumed.
\<close>

definition exponent_part :: "string \<Rightarrow> int \<times> string" where
  "exponent_part s =
     (case s of
        [] \<Rightarrow> (0, s)
      | c # t \<Rightarrow>
          if c = CHR ''e'' \<or> c = CHR ''E'' then
            (let (sgn, u) =
                   (case t of
                      [] \<Rightarrow> (1, t)
                    | d # u \<Rightarrow> if d = CHR ''+'' then (1, u)
                               else if d = CHR ''-'' then (- 1, u) else (1, t));
                 ds = takeWhile is_digit u
             in if ds = [] then (0, s)
                else (sgn * digits_value ds, dropWhile is_digit u))
          else (0, s))"

text \<open>The value \<open>m * 10^e\<close> of a literal with digits \<open>m\<close> and decimal exponent
  \<open>e\<close>, rounded to a double.\<close>

definition decimal_value :: "int \<Rightarrow> int \<Rightarrow> js_number" where
  "decimal_value m e =
     (if 0 \<le> e then round_double (m * 10 ^ nat e) 1 else round_double m (10 ^ nat (- e)))"

text \<open>
  The longest prefix that is a \<open>StrUnsignedDecimalLiteral\<close>: \<^verbatim>\<open>Infinity\<close>, or
  digits with an optional fraction and exponent, or a fraction that starts with the dot.
  The result is its value and the rest of the string; \<open>None\<close> when no prefix is one.
\<close>

definition unsigned_decimal :: "string \<Rightarrow> (js_number \<times> string) option" where
  "unsigned_decimal s =
     (if startsWith s ''Infinity'' then Some (PosInf, drop 8 s)
      else let ip = takeWhile is_digit s; r1 = dropWhile is_digit s
           in case r1 of
                [] \<Rightarrow> if ip = [] then None else Some (decimal_value (digits_value ip) 0, [])
              | c # t \<Rightarrow>
                  if c = CHR ''.'' then
                    (let fp = takeWhile is_digit t; r2 = dropWhile is_digit t
                     in if ip = [] \<and> fp = [] then None
                        else let (e, r3) = exponent_part r2
                             in Some (decimal_value (digits_value (ip @ fp)) (e - int (length fp)),
                                      r3))
                  else if ip = [] then None
                  else let (e, r3) = exponent_part r1
                       in Some (decimal_value (digits_value ip) e, r3))"

definition signed_decimal :: "string \<Rightarrow> (js_number \<times> string) option" where
  "signed_decimal s =
     (case s of
        [] \<Rightarrow> None
      | c # t \<Rightarrow>
          if c = CHR ''+'' then unsigned_decimal t
          else if c = CHR ''-'' then map_option (\<lambda>(v, r). (negate v, r)) (unsigned_decimal t)
          else unsigned_decimal s)"

text \<open>\<^verbatim>\<open>parseFloat(s)\<close>: skip leading white space, read the longest decimal literal,
  ignore what follows; NaN when there is no literal.\<close>

definition parseFloat :: "string \<Rightarrow> js_number" where
  "parseFloat s = (case signed_decimal (trimStart s) of None \<Rightarrow> NaN | Some (v, r) \<Rightarrow> v)"

text \<open>\<^verbatim>\<open>0x\<close>, \<^verbatim>\<open>0o\<close> and \<^verbatim>\<open>0b\<close> integer literals, which \<^verbatim>\<open>Number(s)\<close>
  accepts and \<^verbatim>\<open>parseFloat\<close> does not.\<close>

definition radix_digit :: "char \<Rightarrow> int option" where
  "radix_digit c =
     (if is_digit c then Some (code_of c - 48)
      else if 97 \<le> code_of c \<and> code_of c \<le> 102 then Some (code_of c - 87)
      else if 65 \<le> code_of c \<and> code_of c \<le> 70 then Some (code_of c - 55)
      else None)"

definition radix_value :: "int \<Rightarrow> string \<Rightarrow> int option" where
  "radix_value b ds =
     (if ds = [] then None
      else foldl (\<lambda>a c. case (a, radix_digit c) of
                           (Some n, Some d) \<Rightarrow> if d < b then Some (b * n + d) else None
                         | _ \<Rightarrow> None) (Some 0) ds)"

definition non_decimal :: "string \<Rightarrow> js_number option" where
  "non_decimal s =
     (case s of
        z # p # ds \<Rightarrow>
          if z \<noteq> CHR ''0'' then None
          else let b = (if p = CHR ''x'' \<or> p = CHR ''X'' then 16
                        else if p = CHR ''o'' \<or> p = CHR ''O'' then 8
                        else if p = CHR ''b'' \<or> p = CHR ''B'' then 2 else (0::int))
               in if b = 0 then None
                  else map_option (\<lambda>n. round_double n 1) (radix_value b ds)
      | _ \<Rightarrow> None)"

text \<open>\<^verbatim>\<open>Number(s)\<close>: the whole string, white space trimmed at both ends, must be a
  numeric literal; the empty string is 0.\<close>

definition StringToNumber :: "string \<Rightarrow> js_number" where
  "StringToNumber s =
     (let t = trim s
      in if t = [] then Finite 0
         else case non_decimal t of
                Some v \<Rightarrow> v
              | None \<Rightarrow> (case signed_decimal t of
                           Some (v, []) \<Rightarrow> v
                         | _ \<Rightarrow> NaN))"

section \<open>Data model\<close>

text \<open>
  A raw stored value, as the backend's JSON delivers it under a field name of
  \<^verbatim>\<open>record.values\<close>: nothing (\<^verbatim>\<open>null\<close> or \<^verbatim>\<open>undefined\<close>), a string
  (text inputs, dropdown choices, JSON-encoded locations and photos), or a number (the
  record form stores \<^verbatim>\<open>parseFloat(value) || 0\<close> for a numeric field). A number is
  kept as the decimal text \<^verbatim>\<open>toString()\<close> gives for it: the engine reads a number
  only through that text, its truth value and \<^verbatim>\<open>isFinite\<close>.
\<close>

datatype raw_value = Null | Str string | Num string

text \<open>\<^verbatim>\<open>value && ...\<close>: the empty string, 0, NaN and null are falsy.\<close>

definition truthy :: "raw_value \<Rightarrow> bool" where
  "truthy v =
     (case v of
        Null \<Rightarrow> False
      | Str s \<Rightarrow> s \<noteq> []
      | Num s \<Rightarrow> \<not> isNaN (StringToNumber s) \<and> StringToNumber s \<noteq> Finite 0)"

definition ToString :: "raw_value \<Rightarrow> string" where
  "ToString v = (case v of Null \<Rightarrow> ''null'' | Str s \<Rightarrow> s | Num s \<Rightarrow> s)"

definition ToNumber :: "raw_value \<Rightarrow> js_number" where
  "ToNumber v = (case v of Null \<Rightarrow> Finite 0 | Str s \<Rightarrow> StringToNumber s | Num s \<Rightarrow> StringToNumber s)"

text \<open>The global \<^verbatim>\<open>isFinite(value)\<close> converts its argument to a number first.\<close>

definition isFinite :: "raw_value \<Rightarrow> bool" where
  "isFinite v = number_isFinite (ToNumber v)"

text \<open>\<^verbatim>\<open>typeof value === 'string'\<close>\<close>

definition is_string :: "raw_value \<Rightarrow> bool" where
  "is_string v = (case v of Str s \<Rightarrow> True | _ \<Rightarrow> False)"

text \<open>\<^verbatim>\<open>fieldValue?.toString() || ''\<close>\<close>

definition toString_or_empty :: "raw_value \<Rightarrow> string" where
  "toString_or_empty v = (case v of Null \<Rightarrow> [] | Str s \<Rightarrow> s | Num s \<Rightarrow> s)"

text \<open>A field definition, as \<^verbatim>\<open>getFieldsByFormId\<close> returns it.\<close>

record form_field =
  name :: string
  field_type :: string
  is_num :: bool
  required :: bool

text \<open>A record of a form. \<^verbatim>\<open>record.values\<close> may be missing
  (\<^verbatim>\<open>record.values || {}\<close>); its entries are in the order of
  \<^verbatim>\<open>Object.entries\<close>.\<close>

record form_record =
  record_id :: int
  record_values :: "(string \<times> raw_value) list option"

definition entries :: "form_record \<Rightarrow> (string \<times> raw_value) list" where
  "entries r = (case record_values r of None \<Rightarrow> [] | Some vs \<Rightarrow> vs)"

text \<open>One category of \<^verbatim>\<open>getFieldCategories\<close>, and the object that holds the three
  of them under the keys \<^verbatim>\<open>text\<close>, \<^verbatim>\<open>multiline\<close> and \<^verbatim>\<open>dropdown\<close>.\<close>

record category =
  label :: string
  hasText :: bool
  hasNumeric :: bool

type_synonym categories = "string \<rightharpoonup> category"

text \<open>
  A filter object. The filter builder of the records screen makes
  \<^verbatim>\<open>{ fieldType, operator, value, logic, id }\<close>, which \<^verbatim>\<open>applyFilters\<close> reads;
  \<^verbatim>\<open>filterRecordsByCriteria\<close> reads \<^verbatim>\<open>field\<close>, \<^verbatim>\<open>operator\<close>, \<^verbatim>\<open>value\<close>
  and \<^verbatim>\<open>isNumeric\<close> (a missing \<^verbatim>\<open>isNumeric\<close> is falsy). \<^verbatim>\<open>logic\<close> is
  \<^verbatim>\<open>'and'\<close> or \<^verbatim>\<open>'or'\<close>.
\<close>

record filter_clause =
  filter_id :: int
  fieldType :: string
  field :: string
  operator :: string
  filter_value :: string
  logic :: string
  isNumeric :: bool

section \<open>Category inference: \<^verbatim>\<open>getFieldCategories\<close>\<close>

text \<open>
  \<^verbatim>\<open>getFieldCategories\<close> reads the screen's \<^verbatim>\<open>fields\<close> and \<^verbatim>\<open>records\<close>
  state; here they are its arguments. The \<^verbatim>\<open>categories\<close> object starts with the
  three keys and no evidence; only these own keys are looked up (a field type is one of
  those the field screen offers, never the name of an inherited object property).
\<close>

definition initial_categories :: categories where
  "initial_categories =
     [''text'' \<mapsto> \<lparr>label = ''Text Fields'', hasText = False, hasNumeric = False\<rparr>,
      ''multiline'' \<mapsto> \<lparr>label = ''Multiline Fields'', hasText = False, hasNumeric = False\<rparr>,
      ''dropdown'' \<mapsto> \<lparr>label = ''Dropdown Fields'', hasText = False, hasNumeric = False\<rparr>]"

text \<open>\<^verbatim>\<open>categories[key].hasNumeric = true\<close> and \<^verbatim>\<open>categories[key].hasText = true\<close>,
  both only ever run where \<^verbatim>\<open>categories[key]\<close> exists.\<close>

definition set_hasNumeric :: "string \<Rightarrow> categories \<Rightarrow> categories" where
  "set_hasNumeric k cats =
     (case cats k of None \<Rightarrow> cats | Some c \<Rightarrow> cats(k \<mapsto> c\<lparr>hasNumeric := True\<rparr>))"

definition set_hasText :: "string \<Rightarrow> categories \<Rightarrow> categories" where
  "set_hasText k cats =
     (case cats k of None \<Rightarrow> cats | Some c \<Rightarrow> cats(k \<mapsto> c\<lparr>hasText := True\<rparr>))"

text \<open>The body of \<^verbatim>\<open>fields.forEach\<close>: a field definition of one of the three types
  gives numeric evidence when \<^verbatim>\<open>is_num\<close> is set and text evidence otherwise.\<close>

definition scan_field :: "form_field \<Rightarrow> categories \<Rightarrow> categories" where
  "scan_field f cats =
     (if field_type f = ''text'' \<or> field_type f = ''multiline'' \<or> field_type f = ''dropdown''
      then (if is_num f then set_hasNumeric (field_type f) cats
            else set_hasText (field_type f) cats)
      else cats)"

text \<open>\<^verbatim>\<open>value && !isNaN(parseFloat(value)) && isFinite(value)\<close>\<close>

definition numeric_evidence :: "raw_value \<Rightarrow> bool" where
  "numeric_evidence v = (truthy v \<and> \<not> isNaN (parseFloat (ToString v)) \<and> isFinite v)"

text \<open>\<^verbatim>\<open>value && typeof value === 'string' && value.trim() !== ''\<close>\<close>

definition text_evidence :: "raw_value \<Rightarrow> bool" where
  "text_evidence v = (truthy v \<and> is_string v \<and> trim (ToString v) \<noteq> [])"

text \<open>The body of the inner \<^verbatim>\<open>forEach\<close> over \<^verbatim>\<open>Object.entries(record.values || {})\<close>:
  the field is the first one of that name (\<^verbatim>\<open>fields.find\<close>).\<close>

definition scan_entry :: "form_field list \<Rightarrow> string \<times> raw_value \<Rightarrow> categories \<Rightarrow> categories" where
  "scan_entry flds e cats =
     (case find (\<lambda>f. name f = fst e) flds of
        None \<Rightarrow> cats
      | Some fld \<Rightarrow>
          (case cats (field_type fld) of
             None \<Rightarrow> cats
           | Some c \<Rightarrow>
               if numeric_evidence (snd e) then set_hasNumeric (field_type fld) cats
               else if text_evidence (snd e) then set_hasText (field_type fld) cats
               else cats))"

definition scan_record :: "form_field list \<Rightarrow> form_record \<Rightarrow> categories \<Rightarrow> categories" where
  "scan_record flds r cats = fold (scan_entry flds) (entries r) cats"

definition getFieldCategories :: "form_field list \<Rightarrow> form_record list \<Rightarrow> categories" where
  "getFieldCategories flds records =
     fold (scan_record flds) records (fold scan_field flds initial_categories)"

section \<open>Operators of a category: \<^verbatim>\<open>getOperatorsForFieldType\<close>\<close>

text \<open>An operator is a pair of its \<^verbatim>\<open>value\<close> and its \<^verbatim>\<open>label\<close>.\<close>

definition numericOperators :: "(string \<times> string) list" where
  "numericOperators =
     [(''gt'', ''Greater Than''), (''lt'', ''Less Than''),
      (''gte'', ''Greater or Equal''), (''lte'', ''Less or Equal'')]"

definition stringOperators :: "(string \<times> string) list" where
  "stringOperators = [(''ilike'', ''Contains''), (''like'', ''Starts With'')]"

definition equalsOperator :: "string \<times> string" where
  "equalsOperator = (''eq'', ''Equals'')"

definition getOperatorsForFieldType :: "categories \<Rightarrow> string \<Rightarrow> (string \<times> string) list" where
  "getOperatorsForFieldType fieldCategories ft =
     (case fieldCategories ft of
        None \<Rightarrow> []
      | Some c \<Rightarrow>
          if hasNumeric c \<and> hasText c then equalsOperator # numericOperators @ stringOperators
          else if hasNumeric c then equalsOperator # numericOperators
          else equalsOperator # stringOperators)"

definition getDataTypeDescription :: "categories \<Rightarrow> string \<Rightarrow> string" where
  "getDataTypeDescription fieldCategories ft =
     (case fieldCategories ft of
        None \<Rightarrow> []
      | Some c \<Rightarrow>
          if hasNumeric c \<and> hasText c then ''Filter by Text & Numbers''
          else if hasNumeric c then ''Filter by Numbers''
          else ''Filter by Text'')"

section \<open>The predicate evaluator: \<^verbatim>\<open>applyFilters\<close>\<close>

text \<open>The first \<^verbatim>\<open>switch\<close>, on a stored value that reads as a number: the five
  comparisons return, any other operator falls through (\<open>None\<close>).\<close>

definition numeric_switch :: "string \<Rightarrow> js_number \<Rightarrow> js_number \<Rightarrow> bool option" where
  "numeric_switch op numValue numFilter =
     (if op = ''eq'' then Some (strict_equals numValue numFilter)
      else if op = ''gt'' then Some (greater_than numValue numFilter)
      else if op = ''lt'' then Some (less_than numValue numFilter)
      else if op = ''gte'' then Some (greater_or_equal numValue numFilter)
      else if op = ''lte'' then Some (less_or_equal numValue numFilter)
      else None)"

text \<open>\<^verbatim>\<open>!isNaN(parseFloat(stringValue)) && isFinite(stringValue)\<close>\<close>

definition reads_as_number :: "string \<Rightarrow> bool" where
  "reads_as_number stringValue =
     (\<not> isNaN (parseFloat stringValue) \<and> number_isFinite (StringToNumber stringValue))"

text \<open>The second \<^verbatim>\<open>switch\<close>, under \<^verbatim>\<open>hasText\<close>: the text comparisons on the
  lower-cased strings, and for the four order operators a numeric comparison when the
  stored value reads as a number.\<close>

definition text_switch :: "string \<Rightarrow> string \<Rightarrow> string \<Rightarrow> bool" where
  "text_switch op stringValue filterText =
     (let filterValue = toLowerCase filterText;
          currentValue = toLowerCase stringValue
      in if op = ''eq'' then currentValue = filterValue
         else if op = ''ilike'' then includes_str currentValue filterValue
         else if op = ''like'' then startsWith currentValue filterValue
         else if op = ''gt'' \<or> op = ''lt'' \<or> op = ''gte'' \<or> op = ''lte'' then
           (if reads_as_number stringValue then
              (let numValue = parseFloat stringValue; numFilter = parseFloat filterText
               in if op = ''gt'' then greater_than numValue numFilter
                  else if op = ''lt'' then less_than numValue numFilter
                  else if op = ''gte'' then greater_or_equal numValue numFilter
                  else less_or_equal numValue numFilter)
            else False)
         else False)"

text \<open>\<^verbatim>\<open>fieldCategories[key]?.hasNumeric\<close> and
  \<^verbatim>\<open>fieldCategories[key]?.hasText\<close>: falsy when the key is no category.\<close>

definition category_hasNumeric :: "categories \<Rightarrow> string \<Rightarrow> bool" where
  "category_hasNumeric fieldCategories k =
     (case fieldCategories k of None \<Rightarrow> False | Some c \<Rightarrow> hasNumeric c)"

definition category_hasText :: "categories \<Rightarrow> string \<Rightarrow> bool" where
  "category_hasText fieldCategories k =
     (case fieldCategories k of None \<Rightarrow> False | Some c \<Rightarrow> hasText c)"

text \<open>The callback of \<^verbatim>\<open>matchingFields.some\<close>: one entry of the record against one
  filter.\<close>

definition field_matches :: "categories \<Rightarrow> filter_clause \<Rightarrow> string \<times> raw_value \<Rightarrow> bool" where
  "field_matches fieldCategories flt e =
     (let stringValue = toString_or_empty (snd e);
          has_numeric = category_hasNumeric fieldCategories (fieldType flt);
          has_text = category_hasText fieldCategories (fieldType flt)
      in case (if has_numeric \<and> reads_as_number stringValue
               then numeric_switch (operator flt) (parseFloat stringValue)
                      (parseFloat (filter_value flt))
               else None) of
           Some b \<Rightarrow> b
         | None \<Rightarrow>
             if has_text then text_switch (operator flt) stringValue (filter_value flt)
             else False)"

text \<open>The entries of a record whose field is of the filter's type.\<close>

definition matchingFields ::
  "form_field list \<Rightarrow> filter_clause \<Rightarrow> form_record \<Rightarrow> (string \<times> raw_value) list" where
  "matchingFields flds flt r =
     filter (\<lambda>e. case find (\<lambda>f. name f = fst e) flds of
                   None \<Rightarrow> False
                 | Some fld \<Rightarrow> field_type fld = fieldType flt)
       (entries r)"

text \<open>The callback of \<^verbatim>\<open>filtersToApply.every\<close>.\<close>

definition filter_holds ::
  "categories \<Rightarrow> form_field list \<Rightarrow> form_record \<Rightarrow> filter_clause \<Rightarrow> bool" where
  "filter_holds fieldCategories flds r flt =
     list_ex (field_matches fieldCategories flt) (matchingFields flds flt r)"

text \<open>
  \<^verbatim>\<open>applyFilters\<close>. The screen's \<^verbatim>\<open>fields\<close> state and the
  \<^verbatim>\<open>fieldCategories\<close> computed from the screen's state are arguments, and so is
  \<open>allRecords\<close>, the collection \<^verbatim>\<open>getRecordsByFormId(formId)\<close> delivers.
\<close>

definition applyFilters ::
  "categories \<Rightarrow> form_field list \<Rightarrow> filter_clause list \<Rightarrow> form_record list \<Rightarrow> form_record list" where
  "applyFilters fieldCategories flds filtersToApply allRecords =
     (if length filtersToApply = 0 then allRecords
      else filter (\<lambda>r. list_all (filter_holds fieldCategories flds r) filtersToApply)
             allRecords)"

text \<open>
  The evaluator with the category profiles derived from the collection it is given:
  \<^verbatim>\<open>applyFilters\<close> on a screen whose \<^verbatim>\<open>records\<close> state is the collection that
  is filtered.
\<close>

definition evaluate :: "form_record list \<Rightarrow> form_field list \<Rightarrow> filter_clause list \<Rightarrow> form_record list" where
  "evaluate records flds F = applyFilters (getFieldCategories flds records) flds F records"

section \<open>The query encoder: \<^verbatim>\<open>filterRecordsByCriteria\<close> and \<^verbatim>\<open>filterRecordsSimple\<close>\<close>

text \<open>
  Both functions build the endpoint they hand to \<^verbatim>\<open>apiRequest\<close>; the model returns
  that string. \<open>formId\<close> is the text the template literal puts for it.
\<close>

definition base_query :: "string \<Rightarrow> string" where
  "base_query formId = ''/record?form_id=eq.'' @ formId"

text \<open>\<^verbatim>\<open>getRecordsByFormId\<close> requests the unfiltered query.\<close>

definition getRecordsByFormId :: "string \<Rightarrow> string" where
  "getRecordsByFormId formId = base_query formId"

text \<open>\<^verbatim>\<open>encodeURIComponent(`"${field}"`)\<close>\<close>

definition encodedField :: "string \<Rightarrow> string" where
  "encodedField fld = encodeURIComponent (CHR 0x22 # fld @ [CHR 0x22])"

text \<open>\<^verbatim>\<open>isNumeric ? '-' : '-%3E'\<close>\<close>

definition jsonOperator :: "bool \<Rightarrow> string" where
  "jsonOperator numeric = (if numeric then ''-'' else ''-%3E'')"

text \<open>The \<^verbatim>\<open>switch\<close> on the operator, which both encoders have: the text after
  \<^verbatim>\<open>values\<close>, or \<open>None\<close> for an operator that is none of the seven.\<close>

definition queryParam :: "bool \<Rightarrow> string \<Rightarrow> string \<Rightarrow> string \<Rightarrow> string option" where
  "queryParam numeric fld op v =
     (let lhs = ''values'' @ jsonOperator numeric @ encodedField fld
      in if op = ''eq'' then Some (lhs @ ''=eq.'' @ encodeURIComponent v)
         else if op = ''ilike'' then Some (lhs @ ''=ilike.*'' @ encodeURIComponent v @ ''*'')
         else if op = ''like'' then Some (lhs @ ''=like.'' @ encodeURIComponent v @ ''%'')
         else if op = ''gt'' then Some (lhs @ ''=gt.'' @ encodeURIComponent v)
         else if op = ''lt'' then Some (lhs @ ''=lt.'' @ encodeURIComponent v)
         else if op = ''gte'' then Some (lhs @ ''=gte.'' @ encodeURIComponent v)
         else if op = ''lte'' then Some (lhs @ ''=lte.'' @ encodeURIComponent v)
         else None)"

text \<open>
  The \<^verbatim>\<open>queryParam\<close> that the callback of \<^verbatim>\<open>filters.forEach\<close> builds from
  one filter, and the loop itself, from \<open>index\<close> on, with the query built so far. An
  unknown operator returns from the callback before anything is appended; otherwise
  \<^verbatim>\<open>&\<close> is appended when \<^verbatim>\<open>index > 0\<close>, and then the parameter.
\<close>

definition clause_param :: "filter_clause \<Rightarrow> string option" where
  "clause_param flt = queryParam (isNumeric flt) (field flt) (operator flt) (filter_value flt)"

fun forEach_filter :: "nat \<Rightarrow> filter_clause list \<Rightarrow> string \<Rightarrow> string" where
  "forEach_filter index [] query = query"
| "forEach_filter index (flt # rest) query =
     (case clause_param flt of
        None \<Rightarrow> forEach_filter (Suc index) rest query
      | Some p \<Rightarrow>
          forEach_filter (Suc index) rest ((if 0 < index then query @ ''&'' else query) @ p))"

definition filterRecordsByCriteria :: "string \<Rightarrow> filter_clause list \<Rightarrow> string" where
  "filterRecordsByCriteria formId filters =
     (if length filters = 0 then getRecordsByFormId formId
      else forEach_filter 0 filters (base_query formId))"

text \<open>\<^verbatim>\<open>filterRecordsSimple\<close>: one clause, \<^verbatim>\<open>isNumeric\<close> fixed to false, the
  parameter appended after \<^verbatim>\<open>&\<close>; an unknown operator appends nothing.\<close>

definition filterRecordsSimple :: "string \<Rightarrow> string \<Rightarrow> string \<Rightarrow> string \<Rightarrow> string" where
  "filterRecordsSimple formId fld op v =
     (case queryParam False fld op v of
        None \<Rightarrow> base_query formId
      | Some p \<Rightarrow> base_query formId @ ''&'' @ p)"

section \<open>The inputs of the scenarios\<close>

text \<open>Scenario A: one numeric text field \<^verbatim>\<open>Age\<close>, and records whose \<^verbatim>\<open>Age\<close> is
  \<^verbatim>\<open>"10"\<close>, \<^verbatim>\<open>"20"\<close> and \<^verbatim>\<open>"abc"\<close>; filters on the text category.\<close>

definition age_field :: form_field where
  "age_field = \<lparr>name = ''Age'', field_type = ''text'', is_num = True, required = False\<rparr>"

definition age_record :: "int \<Rightarrow> string \<Rightarrow> form_record" where
  "age_record i s = \<lparr>record_id = i, record_values = Some [(''Age'', Str s)]\<rparr>"

definition scenarioA_records :: "form_record list" where
  "scenarioA_records = [age_record 1 ''10'', age_record 2 ''20'', age_record 3 ''abc'']"

definition age_filter :: "string \<Rightarrow> string \<Rightarrow> filter_clause" where
  "age_filter op v =
     \<lparr>filter_id = 0, fieldType = ''text'', field = ''Age'', operator = op,
      filter_value = v, logic = ''and'', isNumeric = False\<rparr>"

section \<open>The empty filter set\<close>

text \<open>
  Claim C7. With no filter, \<^verbatim>\<open>applyFilters\<close> returns the fetched collection as it
  is, whatever the categories and fields, and so does the evaluator with fresh profiles;
  \<^verbatim>\<open>filterRecordsByCriteria\<close> requests the unfiltered base query
  \<^verbatim>\<open>/record?form_id=eq.<formId>\<close>.
\<close>

theorem empty_filter_set_is_identity:
  "applyFilters fieldCategories flds [] allRecords = allRecords \<and>
   evaluate records flds [] = records \<and>
   filterRecordsByCriteria formId [] = ''/record?form_id=eq.'' @ formId"
  by (simp add: applyFilters_def evaluate_def filterRecordsByCriteria_def
      getRecordsByFormId_def base_query_def)

section \<open>The operators offered for a category\<close>

lemma operator_values:
  "map fst numericOperators = [''gt'', ''lt'', ''gte'', ''lte'']"
  "map fst stringOperators = [''ilike'', ''like'']"
  "fst equalsOperator = ''eq''"
  by (simp_all add: numericOperators_def stringOperators_def equalsOperator_def)

lemma operator_values_of:
  assumes "fieldCategories ft = Some c"
  shows "map fst (getOperatorsForFieldType fieldCategories ft) =
           (if hasNumeric c \<and> hasText c
            then [''eq'', ''gt'', ''lt'', ''gte'', ''lte'', ''ilike'', ''like'']
            else if hasNumeric c then [''eq'', ''gt'', ''lt'', ''gte'', ''lte'']
            else [''eq'', ''ilike'', ''like''])"
  using assms by (simp add: getOperatorsForFieldType_def operator_values)

lemma initial_text:
  "initial_categories ''text'' =
     Some \<lparr>label = ''Text Fields'', hasText = False, hasNumeric = False\<rparr>"
  by (simp add: initial_categories_def)

text \<open>
  Claim C4, as the code has it. For every category profile the operator list contains
  \<^verbatim>\<open>eq\<close>; it contains each of \<^verbatim>\<open>gt\<close>, \<^verbatim>\<open>lt\<close>, \<^verbatim>\<open>gte\<close>, \<^verbatim>\<open>lte\<close>
  exactly when the profile has numeric evidence; and it contains each of \<^verbatim>\<open>ilike\<close>
  and \<^verbatim>\<open>like\<close> exactly when the profile has text evidence or has no numeric evidence:
  the last branch of \<^verbatim>\<open>getOperatorsForFieldType\<close> is the default, taken also by a
  profile with no evidence at all.
\<close>

theorem operators_follow_evidence_with_text_default:
  assumes "fieldCategories ft = Some c"
  shows "''eq'' \<in> set (map fst (getOperatorsForFieldType fieldCategories ft)) \<and>
         (\<forall>op \<in> {''gt'', ''lt'', ''gte'', ''lte''}.
            op \<in> set (map fst (getOperatorsForFieldType fieldCategories ft)) \<longleftrightarrow> hasNumeric c) \<and>
         (\<forall>op \<in> {''ilike'', ''like''}.
            op \<in> set (map fst (getOperatorsForFieldType fieldCategories ft))
              \<longleftrightarrow> (hasText c \<or> \<not> hasNumeric c))"
proof -
  have ops: "map fst (getOperatorsForFieldType fieldCategories ft) =
           (if hasNumeric c \<and> hasText c
            then [''eq'', ''gt'', ''lt'', ''gte'', ''lte'', ''ilike'', ''like'']
            else if hasNumeric c then [''eq'', ''gt'', ''lt'', ''gte'', ''lte'']
            else [''eq'', ''ilike'', ''like''])"
    using assms by (rule operator_values_of)
  show ?thesis unfolding ops by auto
qed

text \<open>The theorem at the profile of the text category of a form with no fields and no
  records, which has no evidence.\<close>

theorem operators_follow_evidence_witness:
  "''eq'' \<in> set (map fst (getOperatorsForFieldType (getFieldCategories [] []) ''text'')) \<and>
   ''gt'' \<notin> set (map fst (getOperatorsForFieldType (getFieldCategories [] []) ''text''))"
  using operators_follow_evidence_with_text_default [of "getFieldCategories [] []" "''text''"
      "\<lparr>label = ''Text Fields'', hasText = False, hasNumeric = False\<rparr>"]
  by (simp add: getFieldCategories_def initial_text)

text \<open>Against C4 as stated: that profile has no text evidence, and the list offers it the
  text operators \<^verbatim>\<open>ilike\<close> and \<^verbatim>\<open>like\<close> all the same.\<close>

theorem no_evidence_profile_offers_text_operators:
  "getFieldCategories [] [] ''text'' =
     Some \<lparr>label = ''Text Fields'', hasText = False, hasNumeric = False\<rparr> \<and>
   ''ilike'' \<in> set (map fst (getOperatorsForFieldType (getFieldCategories [] []) ''text'')) \<and>
   ''like'' \<in> set (map fst (getOperatorsForFieldType (getFieldCategories [] []) ''text''))"
  by (simp add: getFieldCategories_def initial_text operator_values_of)

section \<open>Evaluating the scenario inputs\<close>

text \<open>The built-ins and the engine at the strings of the scenarios, by computation.\<close>

lemmas number_defs = parseFloat_def StringToNumber_def trimStart_def trim_def signed_decimal_def
  unsigned_decimal_def exponent_part_def non_decimal_def is_digit_def is_white_space_def code_of_def
  digits_value_def digit_value_def round_double_def decimal_value_def floor_log2_def
  round_half_even_def pow2_def bit_length.simps Let_def

lemma parse_10: "parseFloat ''10'' = Finite 10" "StringToNumber ''10'' = Finite 10"
  by (simp_all add: number_defs)
lemma parse_20: "parseFloat ''20'' = Finite 20" "StringToNumber ''20'' = Finite 20"
  by (simp_all add: number_defs)
lemma parse_abc: "parseFloat ''abc'' = NaN" "StringToNumber ''abc'' = NaN"
  by (simp_all add: number_defs)
lemma parse_15: "parseFloat ''15'' = Finite 15" "StringToNumber ''15'' = Finite 15"
  by (simp_all add: number_defs)
lemma parse_1: "parseFloat ''1'' = Finite 1" "StringToNumber ''1'' = Finite 1"
  by (simp_all add: number_defs)

lemmas evidence_defs = numeric_evidence_def text_evidence_def truthy_def ToString_def ToNumber_def
  isFinite_def is_string_def number_isFinite_def isNaN_def

lemma evidence_10: "numeric_evidence (Str ''10'')" 
  by (simp add: evidence_defs parse_10)
lemma evidence_20: "numeric_evidence (Str ''20'')" 
  by (simp add: evidence_defs parse_20)
lemma evidence_abc: "\<not> numeric_evidence (Str ''abc'')" "text_evidence (Str ''abc'')"
  by (simp_all add: evidence_defs parse_abc trim_def is_white_space_def code_of_def)

lemmas scan_defs = getFieldCategories_def scan_record_def scan_entry_def scan_field_def entries_def
  set_hasNumeric_def set_hasText_def initial_categories_def

lemma scenarioA_text_profile:
  "getFieldCategories [age_field] scenarioA_records ''text'' =
     Some \<lparr>label = ''Text Fields'', hasText = True, hasNumeric = True\<rparr>"
  by (simp add: scan_defs scenarioA_records_def age_field_def age_record_def evidence_10 evidence_20 evidence_abc)

lemmas match_defs = applyFilters_def filter_holds_def matchingFields_def field_matches_def
  entries_def category_hasNumeric_def category_hasText_def toString_or_empty_def
  numeric_switch_def text_switch_def reads_as_number_def number_isFinite_def isNaN_def
  strict_equals_def greater_than_def less_or_equal_def greater_or_equal_def

lemma lower_10: "toLowerCase ''10'' = ''10''" "toLowerCase ''20'' = ''20''"
  "toLowerCase ''abc'' = ''abc''" "toLowerCase ''1'' = ''1''"
  by (simp_all add: toLowerCase_def lower_char_def code_of_def)

section \<open>Category inference in closed form\<close>

text \<open>
  The two scans of \<^verbatim>\<open>getFieldCategories\<close> never add or remove a key and never clear
  a flag; so each flag of the result is a disjunction over the field definitions and the
  record entries.
\<close>

lemma dom_initial_categories:
  "dom initial_categories = {''text'', ''multiline'', ''dropdown''}"
  by (auto simp: initial_categories_def split: if_splits)

lemma dom_set_flag [simp]:
  "dom (set_hasNumeric k cats) = dom cats" "dom (set_hasText k cats) = dom cats"
  by (auto simp: set_hasNumeric_def set_hasText_def split: option.splits if_splits)

lemma hasNumeric_set_hasNumeric:
  "category_hasNumeric (set_hasNumeric k' cats) k =
     (category_hasNumeric cats k \<or> (k \<in> dom cats \<and> k = k'))"
  by (auto simp: category_hasNumeric_def set_hasNumeric_def split: option.splits)

lemma hasNumeric_set_hasText:
  "category_hasNumeric (set_hasText k' cats) k = category_hasNumeric cats k"
  by (auto simp: category_hasNumeric_def set_hasText_def split: option.splits)

lemma hasText_set_hasText:
  "category_hasText (set_hasText k' cats) k =
     (category_hasText cats k \<or> (k \<in> dom cats \<and> k = k'))"
  by (auto simp: category_hasText_def set_hasText_def split: option.splits)

lemma hasText_set_hasNumeric:
  "category_hasText (set_hasNumeric k' cats) k = category_hasText cats k"
  by (auto simp: category_hasText_def set_hasNumeric_def split: option.splits)

lemmas flag_simps = hasNumeric_set_hasNumeric hasNumeric_set_hasText hasText_set_hasText
  hasText_set_hasNumeric

text \<open>A loop whose every step keeps the keys and can only raise a flag.\<close>

lemma fold_raises_flag:
  assumes keys: "\<And>x cats. dom (step x cats) = dom cats"
    and step: "\<And>x cats. flag (step x cats) k = (flag cats k \<or> (k \<in> dom cats \<and> P x))"
  shows "flag (fold step xs cats) k = (flag cats k \<or> (k \<in> dom cats \<and> (\<exists>x \<in> set xs. P x)))"
proof (induction xs arbitrary: cats)
  case Nil
  show ?case by simp
next
  case (Cons x xs)
  show ?case using Cons.IH [of "step x cats"] by (auto simp: keys step)
qed

lemma dom_scan_field [simp]: "dom (scan_field f cats) = dom cats"
  by (simp add: scan_field_def)

lemma dom_scan_entry [simp]: "dom (scan_entry flds e cats) = dom cats"
  by (simp add: scan_entry_def split: option.splits)

lemma dom_fold:
  assumes "\<And>x cats. dom (step x cats) = dom cats"
  shows "dom (fold step xs cats) = dom cats"
  by (induction xs arbitrary: cats) (simp_all add: assms)

lemma dom_scan_record [simp]: "dom (scan_record flds r cats) = dom cats"
  by (simp add: scan_record_def dom_fold)

lemma dom_getFieldCategories:
  "dom (getFieldCategories flds records) = {''text'', ''multiline'', ''dropdown''}"
  by (simp add: getFieldCategories_def dom_fold dom_initial_categories)

lemma scan_entry_unfold:
  "scan_entry flds e cats =
     (case find (\<lambda>f. name f = fst e) flds of
        None \<Rightarrow> cats
      | Some fld \<Rightarrow>
          if numeric_evidence (snd e) then set_hasNumeric (field_type fld) cats
          else if text_evidence (snd e) then set_hasText (field_type fld) cats
          else cats)"
  by (simp add: scan_entry_def set_hasNumeric_def set_hasText_def split: option.splits)

text \<open>What one step of each loop does to each flag.\<close>

lemma hasNumeric_scan_field:
  "category_hasNumeric (scan_field f cats) k =
     (category_hasNumeric cats k \<or>
      (k \<in> dom cats \<and> field_type f = k \<and> k \<in> {''text'', ''multiline'', ''dropdown''} \<and> is_num f))"
  by (auto simp: scan_field_def flag_simps)

lemma hasText_scan_field:
  "category_hasText (scan_field f cats) k =
     (category_hasText cats k \<or>
      (k \<in> dom cats \<and> field_type f = k \<and> k \<in> {''text'', ''multiline'', ''dropdown''} \<and> \<not> is_num f))"
  by (auto simp: scan_field_def flag_simps)

lemma hasNumeric_scan_entry:
  "category_hasNumeric (scan_entry flds e cats) k =
     (category_hasNumeric cats k \<or>
      (k \<in> dom cats \<and>
       (\<exists>fld. find (\<lambda>f. name f = fst e) flds = Some fld \<and> field_type fld = k \<and>
              numeric_evidence (snd e))))"
  by (auto simp: scan_entry_unfold flag_simps split: option.splits)

lemma hasText_scan_entry:
  "category_hasText (scan_entry flds e cats) k =
     (category_hasText cats k \<or>
      (k \<in> dom cats \<and>
       (\<exists>fld. find (\<lambda>f. name f = fst e) flds = Some fld \<and> field_type fld = k \<and>
              \<not> numeric_evidence (snd e) \<and> text_evidence (snd e))))"
  by (auto simp: scan_entry_unfold flag_simps split: option.splits)



lemma hasNumeric_scan_record:
  "category_hasNumeric (scan_record flds r cats) k =
     (category_hasNumeric cats k \<or>
      (k \<in> dom cats \<and>
       (\<exists>e \<in> set (entries r). \<exists>fld. find (\<lambda>f. name f = fst e) flds = Some fld \<and>
              field_type fld = k \<and> numeric_evidence (snd e))))"
  unfolding scan_record_def
  by (rule fold_raises_flag [where flag = category_hasNumeric and step = "scan_entry flds"])
     (simp, rule hasNumeric_scan_entry)

lemma hasText_scan_record:
  "category_hasText (scan_record flds r cats) k =
     (category_hasText cats k \<or>
      (k \<in> dom cats \<and>
       (\<exists>e \<in> set (entries r). \<exists>fld. find (\<lambda>f. name f = fst e) flds = Some fld \<and>
              field_type fld = k \<and> \<not> numeric_evidence (snd e) \<and> text_evidence (snd e))))"
  unfolding scan_record_def
  by (rule fold_raises_flag [where flag = category_hasText and step = "scan_entry flds"])
     (simp, rule hasText_scan_entry)

lemma initial_no_evidence:
  "\<not> category_hasNumeric initial_categories k" "\<not> category_hasText initial_categories k"
  by (simp_all add: category_hasNumeric_def category_hasText_def initial_categories_def)

lemma hasNumeric_fold_scan_field:
  "category_hasNumeric (fold scan_field flds initial_categories) k =
     (k \<in> {''text'', ''multiline'', ''dropdown''} \<and> (\<exists>f \<in> set flds. field_type f = k \<and> is_num f))"
proof -
  have "category_hasNumeric (fold scan_field flds initial_categories) k =
      (category_hasNumeric initial_categories k \<or>
       (k \<in> dom initial_categories \<and>
        (\<exists>f \<in> set flds. field_type f = k \<and> k \<in> {''text'', ''multiline'', ''dropdown''} \<and> is_num f)))"
    by (rule fold_raises_flag [where flag = category_hasNumeric and step = scan_field])
       (simp, rule hasNumeric_scan_field)
  then show ?thesis
    by (simp add: initial_no_evidence dom_initial_categories) blast
qed

lemma hasText_fold_scan_field:
  "category_hasText (fold scan_field flds initial_categories) k =
     (k \<in> {''text'', ''multiline'', ''dropdown''} \<and> (\<exists>f \<in> set flds. field_type f = k \<and> \<not> is_num f))"
proof -
  have "category_hasText (fold scan_field flds initial_categories) k =
      (category_hasText initial_categories k \<or>
       (k \<in> dom initial_categories \<and>
        (\<exists>f \<in> set flds. field_type f = k \<and> k \<in> {''text'', ''multiline'', ''dropdown''} \<and> \<not> is_num f)))"
    by (rule fold_raises_flag [where flag = category_hasText and step = scan_field])
       (simp, rule hasText_scan_field)
  then show ?thesis
    by (simp add: initial_no_evidence dom_initial_categories) blast
qed


text \<open>The flags of \<^verbatim>\<open>getFieldCategories\<close>, in closed form.\<close>

lemma hasNumeric_getFieldCategories:
  "category_hasNumeric (getFieldCategories flds records) k =
     (k \<in> {''text'', ''multiline'', ''dropdown''} \<and>
      ((\<exists>f \<in> set flds. field_type f = k \<and> is_num f) \<or>
       (\<exists>r \<in> set records. \<exists>e \<in> set (entries r). \<exists>fld.
           find (\<lambda>f. name f = fst e) flds = Some fld \<and> field_type fld = k \<and>
           numeric_evidence (snd e))))"
proof -
  let ?c0 = "fold scan_field flds initial_categories"
  have d0: "dom ?c0 = {''text'', ''multiline'', ''dropdown''}"
    by (simp add: dom_fold dom_initial_categories)
  have "category_hasNumeric (fold (scan_record flds) records ?c0) k =
      (category_hasNumeric ?c0 k \<or>
       (k \<in> dom ?c0 \<and>
        (\<exists>r \<in> set records. \<exists>e \<in> set (entries r). \<exists>fld.
           find (\<lambda>f. name f = fst e) flds = Some fld \<and> field_type fld = k \<and>
           numeric_evidence (snd e))))"
    by (rule fold_raises_flag [where flag = category_hasNumeric and step = "scan_record flds"])
       (simp, rule hasNumeric_scan_record)
  then show ?thesis
    unfolding getFieldCategories_def d0 hasNumeric_fold_scan_field by blast
qed

lemma hasText_getFieldCategories:
  "category_hasText (getFieldCategories flds records) k =
     (k \<in> {''text'', ''multiline'', ''dropdown''} \<and>
      ((\<exists>f \<in> set flds. field_type f = k \<and> \<not> is_num f) \<or>
       (\<exists>r \<in> set records. \<exists>e \<in> set (entries r). \<exists>fld.
           find (\<lambda>f. name f = fst e) flds = Some fld \<and> field_type fld = k \<and>
           \<not> numeric_evidence (snd e) \<and> text_evidence (snd e))))"
proof -
  let ?c0 = "fold scan_field flds initial_categories"
  have d0: "dom ?c0 = {''text'', ''multiline'', ''dropdown''}"
    by (simp add: dom_fold dom_initial_categories)
  have "category_hasText (fold (scan_record flds) records ?c0) k =
      (category_hasText ?c0 k \<or>
       (k \<in> dom ?c0 \<and>
        (\<exists>r \<in> set records. \<exists>e \<in> set (entries r). \<exists>fld.
           find (\<lambda>f. name f = fst e) flds = Some fld \<and> field_type fld = k \<and>
           \<not> numeric_evidence (snd e) \<and> text_evidence (snd e))))"
    by (rule fold_raises_flag [where flag = category_hasText and step = "scan_record flds"])
       (simp, rule hasText_scan_record)
  then show ?thesis
    unfolding getFieldCategories_def d0 hasText_fold_scan_field by blast
qed

lemma category_exists:
  assumes "k \<in> {''text'', ''multiline'', ''dropdown''}"
  shows "\<exists>c. getFieldCategories flds records k = Some c"
  using assms dom_getFieldCategories [of flds records] by blast

text \<open>
  Claim C8. Category inference is monotonic in the record collection: when every record
  of \<open>records\<close> is also in \<open>records'\<close>, each category profile inferred from
  \<open>records\<close> has a profile inferred from \<open>records'\<close> under the same key, and every
  evidence flag set in the former is set in the latter.
\<close>

theorem inference_is_monotonic:
  assumes "set records \<subseteq> set records'"
    and "getFieldCategories flds records k = Some c"
  shows "\<exists>c'. getFieldCategories flds records' k = Some c' \<and>
              (hasNumeric c \<longrightarrow> hasNumeric c') \<and> (hasText c \<longrightarrow> hasText c')"
proof -
  from assms(2) have k: "k \<in> {''text'', ''multiline'', ''dropdown''}"
    using dom_getFieldCategories [of flds records] by blast
  then obtain c' where c': "getFieldCategories flds records' k = Some c'"
    using category_exists by blast
  have n: "category_hasNumeric (getFieldCategories flds records) k \<Longrightarrow>
           category_hasNumeric (getFieldCategories flds records') k"
    unfolding hasNumeric_getFieldCategories using assms(1) by blast
  have t: "category_hasText (getFieldCategories flds records) k \<Longrightarrow>
           category_hasText (getFieldCategories flds records') k"
    unfolding hasText_getFieldCategories using assms(1) by blast
  from n t show ?thesis
    by (simp add: category_hasNumeric_def category_hasText_def assms(2) c')
qed

text \<open>The theorem from the first record of Scenario A to all three of them.\<close>

theorem inference_is_monotonic_witness:
  "set [age_record 1 ''10''] \<subseteq> set scenarioA_records \<and>
   getFieldCategories [age_field] [age_record 1 ''10''] ''text'' =
     Some \<lparr>label = ''Text Fields'', hasText = False, hasNumeric = True\<rparr> \<and>
   (\<exists>c'. getFieldCategories [age_field] scenarioA_records ''text'' = Some c' \<and> hasNumeric c')"
proof -
  have s: "set [age_record 1 ''10''] \<subseteq> set scenarioA_records"
    by (simp add: scenarioA_records_def)
  have c: "getFieldCategories [age_field] [age_record 1 ''10''] ''text'' =
     Some \<lparr>label = ''Text Fields'', hasText = False, hasNumeric = True\<rparr>"
    by (simp add: scan_defs age_field_def age_record_def evidence_10)
  show ?thesis using s c inference_is_monotonic [OF s c] by simp
qed

text \<open>
  Claim C10. Whatever the records (none at all included), a category with a field of its
  type has an evidence flag set in its inferred profile: the field definition alone gives
  numeric evidence when \<^verbatim>\<open>is_num\<close> is set and text evidence otherwise. So a profile
  with no evidence belongs to a category without fields.
\<close>

theorem field_gives_evidence:
  assumes "f \<in> set flds"
    and "field_type f \<in> {''text'', ''multiline'', ''dropdown''}"
  shows "\<exists>c. getFieldCategories flds records (field_type f) = Some c \<and>
             (hasNumeric c \<or> hasText c) \<and>
             (is_num f \<longrightarrow> hasNumeric c) \<and> (\<not> is_num f \<longrightarrow> hasText c)"
proof -
  obtain c where c: "getFieldCategories flds records (field_type f) = Some c"
    using category_exists [OF assms(2)] by blast
  have n: "is_num f \<Longrightarrow> category_hasNumeric (getFieldCategories flds records) (field_type f)"
    unfolding hasNumeric_getFieldCategories using assms by blast
  have t: "\<not> is_num f \<Longrightarrow> category_hasText (getFieldCategories flds records) (field_type f)"
    unfolding hasText_getFieldCategories using assms by blast
  from n t show ?thesis
    by (auto simp: category_hasNumeric_def category_hasText_def c)
qed

text \<open>The theorem at the \<^verbatim>\<open>Age\<close> field of Scenario A and no records.\<close>

theorem field_gives_evidence_witness:
  "age_field \<in> set [age_field] \<and> field_type age_field = ''text'' \<and>
   (\<exists>c. getFieldCategories [age_field] [] ''text'' = Some c \<and> hasNumeric c)"
proof -
  have t: "field_type age_field = ''text''" "is_num age_field"
    by (simp_all add: age_field_def)
  show ?thesis
    using field_gives_evidence [of age_field "[age_field]" "[]"] by (auto simp: t)
qed

section \<open>Scenario A\<close>

text \<open>
  Claim C1, as the code has it. For the fields and records of Scenario A the profile of
  the text category has numeric evidence and text evidence as well: the record scan does
  not look at \<^verbatim>\<open>is_num\<close>, and \<^verbatim>\<open>"abc"\<close>, which does not read as a number and is
  a non-blank string, gives text evidence. Without that record the profile has numeric
  evidence only.
\<close>

theorem scenarioA_profile_has_both_kinds:
  "getFieldCategories [age_field] scenarioA_records ''text'' =
     Some \<lparr>label = ''Text Fields'', hasText = True, hasNumeric = True\<rparr> \<and>
   getFieldCategories [age_field] [age_record 1 ''10'', age_record 2 ''20''] ''text'' =
     Some \<lparr>label = ''Text Fields'', hasText = False, hasNumeric = True\<rparr>"
  by (simp add: scan_defs scenarioA_records_def age_field_def age_record_def
      evidence_10 evidence_20 evidence_abc)

text \<open>Against C1 as stated: the profile inferred for Scenario A has text evidence.\<close>

theorem scenarioA_profile_has_text_evidence:
  "category_hasText (getFieldCategories [age_field] scenarioA_records) ''text''"
  by (simp add: category_hasText_def scenarioA_text_profile)

section \<open>The combinator is not read\<close>

lemma forEach_filter_later:
  "0 < index \<Longrightarrow>
   forEach_filter index fs query =
     query @ concat (map (\<lambda>g. case clause_param g of None \<Rightarrow> [] | Some p \<Rightarrow> ''&'' @ p) fs)"
  by (induction fs arbitrary: index query) (simp_all split: option.splits)

lemma forEach_filter_first:
  "forEach_filter 0 (f # fs) query =
     query @ (case clause_param f of None \<Rightarrow> [] | Some p \<Rightarrow> p) @
     concat (map (\<lambda>g. case clause_param g of None \<Rightarrow> [] | Some p \<Rightarrow> ''&'' @ p) fs)"
  by (simp add: forEach_filter_later split: option.splits)

lemma clause_param_logic [simp]: "clause_param (flt\<lparr>logic := l\<rparr>) = clause_param flt"
  by (simp add: clause_param_def)

lemma filter_holds_logic [simp]:
  "filter_holds cats flds r (flt\<lparr>logic := l\<rparr>) = filter_holds cats flds r flt"
proof -
  have "field_matches cats (flt\<lparr>logic := l\<rparr>) = field_matches cats flt"
    by (rule ext) (simp add: field_matches_def Let_def split: option.splits)
  then show ?thesis
    by (simp add: filter_holds_def matchingFields_def cong: option.case_cong)
qed

lemma forEach_filter_logic:
  "length ls = length F \<Longrightarrow>
   forEach_filter index (map2 (\<lambda>flt l. flt\<lparr>logic := l\<rparr>) F ls) query = forEach_filter index F query"
  by (induction ls F arbitrary: index query rule: list_induct2) (simp_all split: option.splits)

lemma list_all_logic:
  "length ls = length F \<Longrightarrow>
   list_all (filter_holds cats flds r) (map2 (\<lambda>flt l. flt\<lparr>logic := l\<rparr>) F ls) =
   list_all (filter_holds cats flds r) F"
  by (induction ls F rule: list_induct2) simp_all

text \<open>
  Claim C6. Both paths use AND over all clauses, whatever the combinators: the evaluator
  returns exactly the records for which every clause holds; giving the clauses any other
  combinators \<open>ls\<close> changes neither the evaluator's result nor the encoder's query; and
  in the query every clause after the first comes after the separator \<^verbatim>\<open>&\<close>.
\<close>

theorem and_only_on_both_paths:
  assumes "length ls = length F"
  shows "applyFilters cats flds F recs =
           filter (\<lambda>r. \<forall>flt \<in> set F. filter_holds cats flds r flt) recs \<and>
         applyFilters cats flds (map2 (\<lambda>flt l. flt\<lparr>logic := l\<rparr>) F ls) recs =
           applyFilters cats flds F recs \<and>
         filterRecordsByCriteria formId (map2 (\<lambda>flt l. flt\<lparr>logic := l\<rparr>) F ls) =
           filterRecordsByCriteria formId F \<and>
         (\<forall>f fs. F = f # fs \<longrightarrow>
            filterRecordsByCriteria formId F =
              base_query formId @ (case clause_param f of None \<Rightarrow> [] | Some p \<Rightarrow> p) @
              concat (map (\<lambda>g. case clause_param g of None \<Rightarrow> [] | Some p \<Rightarrow> ''&'' @ p) fs))"
proof -
  have a: "applyFilters cats flds F recs =
           filter (\<lambda>r. \<forall>flt \<in> set F. filter_holds cats flds r flt) recs"
    by (simp add: applyFilters_def list_all_iff)
  have b: "applyFilters cats flds (map2 (\<lambda>flt l. flt\<lparr>logic := l\<rparr>) F ls) recs =
           applyFilters cats flds F recs"
    using assms by (simp add: applyFilters_def list_all_logic)
  have c: "filterRecordsByCriteria formId (map2 (\<lambda>flt l. flt\<lparr>logic := l\<rparr>) F ls) =
           filterRecordsByCriteria formId F"
    using assms by (simp add: filterRecordsByCriteria_def forEach_filter_logic)
  have d: "\<forall>f fs. F = f # fs \<longrightarrow>
            filterRecordsByCriteria formId F =
              base_query formId @ (case clause_param f of None \<Rightarrow> [] | Some p \<Rightarrow> p) @
              concat (map (\<lambda>g. case clause_param g of None \<Rightarrow> [] | Some p \<Rightarrow> ''&'' @ p) fs)"
    by (simp add: filterRecordsByCriteria_def forEach_filter_first del: forEach_filter.simps)
  from a b c d show ?thesis by blast
qed


text \<open>Scenario C on the records of Scenario A: \<^verbatim>\<open>Age > 15\<close>, then \<^verbatim>\<open>Age = 10\<close>
  with the combinator \<^verbatim>\<open>or\<close>. No record satisfies both, and none is returned.\<close>

theorem and_only_witness:
  "length [''and'', ''or''] = length [age_filter ''gt'' ''15'', age_filter ''eq'' ''10''] \<and>
   applyFilters (getFieldCategories [age_field] scenarioA_records) [age_field]
      [age_filter ''gt'' ''15'', (age_filter ''eq'' ''10'')\<lparr>logic := ''or''\<rparr>] scenarioA_records = [] \<and>
   filterRecordsByCriteria ''5''
      [age_filter ''gt'' ''15'', (age_filter ''eq'' ''10'')\<lparr>logic := ''or''\<rparr>] =
     filterRecordsByCriteria ''5'' [age_filter ''gt'' ''15'', age_filter ''eq'' ''10'']"
proof -
  have l: "map2 (\<lambda>flt l. flt\<lparr>logic := l\<rparr>) [age_filter ''gt'' ''15'', age_filter ''eq'' ''10'']
             [''and'', ''or''] =
           [age_filter ''gt'' ''15'', (age_filter ''eq'' ''10'')\<lparr>logic := ''or''\<rparr>]"
    by (simp add: age_filter_def)
  have e: "applyFilters (getFieldCategories [age_field] scenarioA_records) [age_field]
      [age_filter ''gt'' ''15'', age_filter ''eq'' ''10''] scenarioA_records = []"
    by (simp add: match_defs scenarioA_text_profile scenarioA_records_def age_record_def
        age_field_def age_filter_def parse_10 parse_20 parse_abc parse_15 lower_10)
  show ?thesis
    using and_only_on_both_paths [of "[''and'', ''or'']"
        "[age_filter ''gt'' ''15'', age_filter ''eq'' ''10'']"
        "getFieldCategories [age_field] scenarioA_records" "[age_field]" scenarioA_records "''5''"]
    unfolding l e by simp
qed

section \<open>The separator of the query encoder\<close>

text \<open>No parameter contains \<^verbatim>\<open>&\<close>: \<^verbatim>\<open>encodeURIComponent\<close> escapes it, and the
  fixed parts of a parameter have none.\<close>

lemma code_of_bounds: "0 \<le> code_of c" "code_of c < 256"
proof -
  have "(of_char c :: int) mod 256 = of_char c" by simp
  then show "0 \<le> code_of c" "code_of c < 256"
    unfolding code_of_def by (metis pos_mod_sign zero_less_numeral, metis pos_mod_bound zero_less_numeral)
qed

lemma char_of_eq_amp: "(char_of (n::int) = CHR ''&'') = (n mod 256 = 38)"
proof -
  have "(char_of n = CHR ''&'') = (of_char (char_of n) = (of_char CHR ''&'' :: int))"
    by (simp only: of_char_eq_iff)
  then show ?thesis by (simp add: of_char_of)
qed

lemma hex_digit_not_amp: "0 \<le> n \<Longrightarrow> n < 16 \<Longrightarrow> hex_digit n \<noteq> CHR ''&''"
  by (auto simp: hex_digit_def char_of_eq_amp)

lemma amp_reserved: "\<not> uri_unreserved (CHR ''&'')"
  by (simp add: uri_unreserved_def is_alpha_def is_digit_def code_of_def)

lemma percent_encode_no_amp: "CHR ''&'' \<notin> set (percent_encode c)"
proof -
  have "0 \<le> code_of c div 16" "code_of c div 16 < 16" "0 \<le> code_of c mod 16" "code_of c mod 16 < 16"
    using code_of_bounds [of c] by auto
  then have "hex_digit (code_of c div 16) \<noteq> CHR ''&''" "hex_digit (code_of c mod 16) \<noteq> CHR ''&''"
    by (simp_all add: hex_digit_not_amp)
  then show ?thesis
    by (auto simp: percent_encode_def)
qed

lemma encodeURIComponent_no_amp: "CHR ''&'' \<notin> set (encodeURIComponent s)"
  using amp_reserved percent_encode_no_amp by (auto simp: encodeURIComponent_def)

lemma queryParam_no_amp:
  assumes "queryParam numeric fld op v = Some p"
  shows "CHR ''&'' \<notin> set p"
  using assms encodeURIComponent_no_amp
  by (auto simp: queryParam_def jsonOperator_def encodedField_def Let_def split: if_splits)


lemma queryParam_starts:
  assumes "queryParam numeric fld op v = Some p"
  shows "take 10 p = (if numeric then ''values-%22'' else ''values-%3E'')"
  using assms
  by (auto simp: queryParam_def jsonOperator_def encodedField_def encodeURIComponent_def
      uri_unreserved_def is_alpha_def is_digit_def code_of_def percent_encode_def hex_digit_def
      char_of_def Let_def split: if_splits)

text \<open>
  Claim C9. For a non-empty filter list the query is the base path, then the first
  clause's parameter with nothing in between, then every later encoded clause after a
  \<^verbatim>\<open>&\<close>. A parameter starts with \<^verbatim>\<open>values\<close> and has no \<^verbatim>\<open>&\<close> of its
  own, so the separators are the only ones after the base path. The single-clause
  encoder \<^verbatim>\<open>filterRecordsSimple\<close> puts \<^verbatim>\<open>&\<close> before its parameter.
\<close>

theorem first_clause_follows_base_directly:
  "filterRecordsByCriteria formId (f # fs) =
     base_query formId @ (case clause_param f of None \<Rightarrow> [] | Some p \<Rightarrow> p) @
     concat (map (\<lambda>g. case clause_param g of None \<Rightarrow> [] | Some p \<Rightarrow> ''&'' @ p) fs) \<and>
   (\<forall>g p. clause_param g = Some p \<longrightarrow> CHR ''&'' \<notin> set p \<and> take 6 p = ''values'') \<and>
   filterRecordsSimple formId fld op v =
     base_query formId @ (case queryParam False fld op v of None \<Rightarrow> [] | Some p \<Rightarrow> ''&'' @ p)"
proof -
  have a: "filterRecordsByCriteria formId (f # fs) =
     base_query formId @ (case clause_param f of None \<Rightarrow> [] | Some p \<Rightarrow> p) @
     concat (map (\<lambda>g. case clause_param g of None \<Rightarrow> [] | Some p \<Rightarrow> ''&'' @ p) fs)"
    by (simp add: filterRecordsByCriteria_def forEach_filter_first del: forEach_filter.simps)
  have b: "CHR ''&'' \<notin> set p \<and> take 6 p = ''values''" if "clause_param g = Some p" for g p
  proof -
    from that have q: "queryParam (isNumeric g) (field g) (operator g) (filter_value g) = Some p"
      by (simp add: clause_param_def)
    have "take 6 (take 10 p) = ''values''"
      unfolding queryParam_starts [OF q] by simp
    then show ?thesis using queryParam_no_amp [OF q] by simp
  qed
  have c: "filterRecordsSimple formId fld op v =
     base_query formId @ (case queryParam False fld op v of None \<Rightarrow> [] | Some p \<Rightarrow> ''&'' @ p)"
    by (simp add: filterRecordsSimple_def split: option.splits)
  from a b c show ?thesis by blast
qed

lemmas encode_defs = clause_param_def queryParam_def jsonOperator_def encodedField_def
  encodeURIComponent_def uri_unreserved_def is_alpha_def is_digit_def code_of_def
  percent_encode_def hex_digit_def char_of_def Let_def

lemma scenarioD_param:
  "clause_param (age_filter ''eq'' ''A B'') = Some ''values-%3E%22Age%22=eq.A%20B''"
  by (simp add: encode_defs age_filter_def)

text \<open>Scenario D, in both encoders.\<close>

theorem first_clause_witness:
  "filterRecordsByCriteria ''5'' [age_filter ''eq'' ''A B''] =
     ''/record?form_id=eq.5values-%3E%22Age%22=eq.A%20B'' \<and>
   CHR ''&'' \<notin> set ''values-%3E%22Age%22=eq.A%20B'' \<and>
   filterRecordsSimple ''5'' ''Age'' ''eq'' ''A B'' =
     ''/record?form_id=eq.5&values-%3E%22Age%22=eq.A%20B''"
proof -
  have q: "queryParam False ''Age'' ''eq'' ''A B'' = Some ''values-%3E%22Age%22=eq.A%20B''"
    using scenarioD_param by (simp add: clause_param_def age_filter_def)
  show ?thesis
    using first_clause_follows_base_directly [of "''5''" "age_filter ''eq'' ''A B''" "[]"
        "''Age''" "''eq''" "''A B''"] scenarioD_param
    by (simp add: q base_query_def)
qed

section \<open>The JSON-path operator of the query encoder\<close>

lemma clause_in_query:
  assumes "flt \<in> set F" and "clause_param flt = Some p"
  shows "\<exists>pre post. filterRecordsByCriteria formId F = pre @ p @ post"
proof (cases F)
  case Nil
  with assms show ?thesis by simp
next
  case (Cons f fs)
  let ?amp = "\<lambda>g. case clause_param g of None \<Rightarrow> [] | Some p \<Rightarrow> ''&'' @ p"
  have q: "filterRecordsByCriteria formId F =
     base_query formId @ (case clause_param f of None \<Rightarrow> [] | Some p \<Rightarrow> p) @ concat (map ?amp fs)"
    unfolding Cons
    by (simp add: filterRecordsByCriteria_def forEach_filter_first del: forEach_filter.simps)
  show ?thesis
  proof (cases "flt = f")
    case True
    with q assms(2) have "filterRecordsByCriteria formId F = base_query formId @ p @ concat (map ?amp fs)"
      by simp
    then show ?thesis by blast
  next
    case False
    with assms(1) Cons have "flt \<in> set fs" by simp
    then obtain xs ys where fs: "fs = xs @ flt # ys"
      by (auto simp: in_set_conv_decomp)
    have "filterRecordsByCriteria formId F =
        (base_query formId @ (case clause_param f of None \<Rightarrow> [] | Some p \<Rightarrow> p) @
         concat (map ?amp xs) @ ''&'') @ p @ concat (map ?amp ys)"
      unfolding q fs using assms(2) by simp
    then show ?thesis by blast
  qed
qed

lemma queryParam_shape:
  assumes "queryParam numeric fld op v = Some p"
  shows "\<exists>tail. \<forall>b. queryParam b fld op v = Some (''values'' @ jsonOperator b @ tail)"
  using assms by (auto simp: queryParam_def Let_def split: if_splits)

lemma jsonOperator_branches_differ: "jsonOperator True \<noteq> jsonOperator False"
  by (simp add: jsonOperator_def)

text \<open>
  Claim C2, as the code has it. The encoder chooses the JSON-path operator of a clause by
  the clause's \<^verbatim>\<open>isNumeric\<close>: an encoded clause is \<^verbatim>\<open>values\<close>, the operator of
  the branch its marking selects, and a rest that does not depend on the marking. The two
  branches differ, so the marking changes the parameter, and the parameter is part of the
  query. \<^verbatim>\<open>filterRecordsSimple\<close> always takes the branch of an unmarked clause.
\<close>

theorem json_operator_chosen_by_isNumeric:
  assumes "flt \<in> set F" and "clause_param flt = Some p"
  shows "(\<exists>tail.
            (\<forall>b. clause_param (flt\<lparr>isNumeric := b\<rparr>) = Some (''values'' @ jsonOperator b @ tail)) \<and>
            p = ''values'' @ jsonOperator (isNumeric flt) @ tail \<and>
            filterRecordsSimple formId (field flt) (operator flt) (filter_value flt) =
              base_query formId @ ''&'' @ ''values'' @ jsonOperator False @ tail) \<and>
         clause_param (flt\<lparr>isNumeric := True\<rparr>) \<noteq> clause_param (flt\<lparr>isNumeric := False\<rparr>) \<and>
         (\<exists>pre post. filterRecordsByCriteria formId F = pre @ p @ post)"
proof -
  from assms(2) have q: "queryParam (isNumeric flt) (field flt) (operator flt) (filter_value flt) = Some p"
    by (simp add: clause_param_def)
  then obtain tail where
    t: "\<And>b. queryParam b (field flt) (operator flt) (filter_value flt) =
            Some (''values'' @ jsonOperator b @ tail)"
    using queryParam_shape by blast
  have a: "clause_param (flt\<lparr>isNumeric := b\<rparr>) = Some (''values'' @ jsonOperator b @ tail)" for b
    by (simp add: clause_param_def t)
  have b: "p = ''values'' @ jsonOperator (isNumeric flt) @ tail"
    using q t [of "isNumeric flt"] by simp
  have c: "filterRecordsSimple formId (field flt) (operator flt) (filter_value flt) =
      base_query formId @ ''&'' @ ''values'' @ jsonOperator False @ tail"
    by (simp add: filterRecordsSimple_def t)
  have d: "clause_param (flt\<lparr>isNumeric := True\<rparr>) \<noteq> clause_param (flt\<lparr>isNumeric := False\<rparr>)"
    unfolding a using jsonOperator_branches_differ by simp
  from a b c d clause_in_query [OF assms] show ?thesis by blast
qed

lemma numeric_param:
  "clause_param ((age_filter ''gt'' ''15'')\<lparr>isNumeric := True\<rparr>) = Some ''values-%22Age%22=gt.15''"
  "clause_param (age_filter ''gt'' ''15'') = Some ''values-%3E%22Age%22=gt.15''"
  by (simp_all add: encode_defs age_filter_def)

text \<open>The theorem at the clause \<^verbatim>\<open>Age > 15\<close> marked numeric: it is encoded, and
  not as the unmarked clause is.\<close>

theorem json_operator_chosen_witness:
  "(age_filter ''gt'' ''15'')\<lparr>isNumeric := True\<rparr> \<in> set [(age_filter ''gt'' ''15'')\<lparr>isNumeric := True\<rparr>] \<and>
   (\<exists>p. clause_param ((age_filter ''gt'' ''15'')\<lparr>isNumeric := True\<rparr>) = Some p) \<and>
   clause_param ((age_filter ''gt'' ''15'')\<lparr>isNumeric := True\<rparr>) \<noteq>
     clause_param ((age_filter ''gt'' ''15'')\<lparr>isNumeric := False\<rparr>)"
proof -
  have m: "(age_filter ''gt'' ''15'')\<lparr>isNumeric := True\<rparr> \<in>
      set [(age_filter ''gt'' ''15'')\<lparr>isNumeric := True\<rparr>]"
    by simp
  have u: "(age_filter ''gt'' ''15'')\<lparr>isNumeric := True, isNumeric := b\<rparr> =
      (age_filter ''gt'' ''15'')\<lparr>isNumeric := b\<rparr>" for b
    by simp
  show ?thesis
    using json_operator_chosen_by_isNumeric [OF m numeric_param(1), of "''5''"] m numeric_param(1)
    unfolding u by blast
qed

text \<open>Against C2 as stated: the marking is read. The query the code builds for the clause
  \<^verbatim>\<open>Age > 15\<close> marked numeric is not the one it builds for the unmarked clause.\<close>

theorem isNumeric_clause_is_not_encoded_as_text:
  "filterRecordsByCriteria ''5'' [(age_filter ''gt'' ''15'')\<lparr>isNumeric := True\<rparr>] =
     ''/record?form_id=eq.5values-%22Age%22=gt.15'' \<and>
   filterRecordsByCriteria ''5'' [age_filter ''gt'' ''15''] =
     ''/record?form_id=eq.5values-%3E%22Age%22=gt.15''"
  by (simp add: filterRecordsByCriteria_def numeric_param base_query_def)

section \<open>Evaluating twice\<close>

lemmas eval_defs = applyFilters_def filter_holds_def matchingFields_def field_matches_def
  entries_def toString_or_empty_def numeric_switch_def text_switch_def reads_as_number_def
  number_isFinite_def isNaN_def strict_equals_def greater_than_def less_or_equal_def
  greater_or_equal_def Let_def scenarioA_records_def age_record_def age_field_def age_filter_def

lemma scenarioA_flags:
  "category_hasNumeric (getFieldCategories [age_field] scenarioA_records) ''text''"
  "category_hasText (getFieldCategories [age_field] scenarioA_records) ''text''"
  by (simp_all add: category_hasNumeric_def category_hasText_def scenarioA_text_profile)

lemma first_record_profile:
  "getFieldCategories [age_field] [age_record 1 ''10''] ''text'' =
     Some \<lparr>label = ''Text Fields'', hasText = False, hasNumeric = True\<rparr>"
  by (simp add: scan_defs age_field_def age_record_def evidence_10)

lemma first_record_flags:
  "category_hasNumeric (getFieldCategories [age_field] [age_record 1 ''10'']) ''text''"
  "\<not> category_hasText (getFieldCategories [age_field] [age_record 1 ''10'']) ''text''"
  by (simp_all add: category_hasNumeric_def category_hasText_def first_record_profile)

lemma includes_1: "includes_str ''10'' ''1''" "\<not> includes_str ''20'' ''1''" "\<not> includes_str ''abc'' ''1''"
  by simp_all

lemma ilike_with_both:
  assumes "category_hasNumeric cats ''text''" and "category_hasText cats ''text''"
  shows "applyFilters cats [age_field] [age_filter ''ilike'' ''1''] scenarioA_records =
           [age_record 1 ''10'']"
  using assms by (simp add: eval_defs parse_10 parse_20 parse_abc parse_1 lower_10 includes_1)

lemma ilike_with_numeric_only:
  assumes "category_hasNumeric cats ''text''" and "\<not> category_hasText cats ''text''"
  shows "applyFilters cats [age_field] [age_filter ''ilike'' ''1''] [age_record 1 ''10''] = []"
  using assms by (simp add: eval_defs parse_10 parse_1)

text \<open>
  Against C3 as stated. On Scenario A the filter \<^verbatim>\<open>Age contains "1"\<close> keeps the record
  \<^verbatim>\<open>"10"\<close>: the profile has text evidence, from \<^verbatim>\<open>"abc"\<close>. The profile inferred
  from that one record has numeric evidence only, so the text comparison is not tried and
  the second evaluation returns nothing.
\<close>

theorem evaluate_twice_differs:
  "evaluate scenarioA_records [age_field] [age_filter ''ilike'' ''1''] = [age_record 1 ''10''] \<and>
   evaluate (evaluate scenarioA_records [age_field] [age_filter ''ilike'' ''1''])
     [age_field] [age_filter ''ilike'' ''1''] = []"
proof -
  have once: "evaluate scenarioA_records [age_field] [age_filter ''ilike'' ''1''] =
      [age_record 1 ''10'']"
    unfolding evaluate_def by (rule ilike_with_both [OF scenarioA_flags])
  have twice: "evaluate [age_record 1 ''10''] [age_field] [age_filter ''ilike'' ''1''] = []"
    unfolding evaluate_def by (rule ilike_with_numeric_only [OF first_record_flags])
  show ?thesis unfolding once twice by simp
qed

text \<open>
  Claim C3, as the code has it. With the same category profiles in both evaluations, as
  in \<^verbatim>\<open>applyFilters\<close>, which takes them from the screen and not from the collection
  it filters, evaluating twice is evaluating once; and so it is for the evaluator with
  fresh profiles whenever the profiles inferred from the filtered collection are those
  inferred from the original one.
\<close>

theorem evaluate_idempotent_with_fixed_profiles:
  "applyFilters cats flds F (applyFilters cats flds F recs) = applyFilters cats flds F recs \<and>
   (getFieldCategories flds (evaluate records flds F) = getFieldCategories flds records \<longrightarrow>
      evaluate (evaluate records flds F) flds F = evaluate records flds F)"
proof -
  have a: "applyFilters c flds F (applyFilters c flds F rs) = applyFilters c flds F rs" for c rs
    by (simp add: applyFilters_def)
  have "evaluate (evaluate records flds F) flds F = evaluate records flds F"
    if "getFieldCategories flds (evaluate records flds F) = getFieldCategories flds records"
    using that a [of "getFieldCategories flds records" records] by (simp add: evaluate_def)
  with a show ?thesis by blast
qed

lemma two_numeric_profile:
  "getFieldCategories [age_field] [age_record 1 ''10'', age_record 2 ''20''] =
   getFieldCategories [age_field] [age_record 2 ''20'']"
  by (simp add: scan_defs age_field_def age_record_def evidence_10 evidence_20)

lemma two_numeric_flags:
  "category_hasNumeric (getFieldCategories [age_field] [age_record 1 ''10'', age_record 2 ''20'']) ''text''"
  by (simp add: hasNumeric_getFieldCategories age_field_def)

lemma gt_15_with_numeric:
  assumes "category_hasNumeric cats ''text''"
  shows "applyFilters cats [age_field] [age_filter ''gt'' ''15'']
           [age_record 1 ''10'', age_record 2 ''20''] = [age_record 2 ''20'']"
    and "applyFilters cats [age_field] [age_filter ''gt'' ''15''] [age_record 2 ''20''] =
           [age_record 2 ''20'']"
  using assms by (simp_all add: eval_defs parse_10 parse_20 parse_15)

text \<open>The theorem at the two numeric records of Scenario A and \<^verbatim>\<open>Age > 15\<close>: the
  filtered collection infers the same profiles.\<close>

theorem evaluate_idempotent_witness:
  "getFieldCategories [age_field]
     (evaluate [age_record 1 ''10'', age_record 2 ''20''] [age_field] [age_filter ''gt'' ''15'']) =
   getFieldCategories [age_field] [age_record 1 ''10'', age_record 2 ''20''] \<and>
   evaluate [age_record 2 ''20''] [age_field] [age_filter ''gt'' ''15''] = [age_record 2 ''20'']"
proof -
  have once: "evaluate [age_record 1 ''10'', age_record 2 ''20''] [age_field]
      [age_filter ''gt'' ''15''] = [age_record 2 ''20'']"
    unfolding evaluate_def by (rule gt_15_with_numeric(1) [OF two_numeric_flags])
  show ?thesis
    using evaluate_idempotent_with_fixed_profiles [of _ "[age_field]" "[age_filter ''gt'' ''15'']" _
        "[age_record 1 ''10'', age_record 2 ''20'']"]
    unfolding once by (simp add: two_numeric_profile)
qed

section \<open>The clause's value in a numeric comparison\<close>

lemma less_than_NaN [simp]: "\<not> less_than a NaN" "\<not> less_than NaN a"
  by (cases a; simp)+







end
